theory Spec2Isabelle
  imports Complex_Main
begin

section \<open>The MCMC ensemble posterior of BayesOpt (posterior\_mcmc.hpp)\<close>

text \<open>
  The class \<^verbatim>\<open>MCMCModel\<close> keeps one surrogate (\<^verbatim>\<open>NonParametricProcess\<close>) and one
  criterion (\<^verbatim>\<open>Criteria\<close>) per MCMC particle and fans every operation out over them.
  Its inline member functions are embedded below, one definition per member function.

  The classes of the particles are declared in headers that are not part of the sources
  at hand, and their methods are virtual. They enter the model as records of functions,
  one field per method the ensemble calls. A method takes the state of its object and
  returns the outcome of the call together with the state the object is left in: the
  outcome is \<open>Inr\<close> of the returned value, or \<open>Inl\<close> of the exception thrown.

  A method acts on the object it is called on and on no other element of the two
  collections. The header calls a criterion without naming a surrogate: the pointer
  that a criterion holds to its surrogate is set outside the header, and the methods of
  a criterion are functions of the state of the criterion alone.
\<close>

subsection \<open>Values of type double\<close>

text \<open>
  A \<^verbatim>\<open>double\<close> is an IEEE 754 binary64 number: a sign and a magnitude, an infinity with
  its sign, or NaN. \<open>Finite s m\<close> is the number of magnitude \<open>\<bar>m\<bar>\<close>, negative when \<open>s\<close>
  holds; \<open>Finite False 0\<close> and \<open>Finite True 0\<close> are the two zeros. Arithmetic rounds to
  nearest, ties to even, which is the mode a C++ program runs in unless it changes it.
  NaNs are one value (no payloads), and the status flags are left out.
\<close>

datatype double = Finite bool real | Infinite bool | NaN

fun finite_double :: "double \<Rightarrow> bool" where
  "finite_double (Finite s m) = True"
| "finite_double x = False"

fun value_of :: "double \<Rightarrow> real" where
  "value_of (Finite s m) = (if s then - \<bar>m\<bar> else \<bar>m\<bar>)"
| "value_of x = 0"

text \<open>
  \<open>floor_log2_upto n y\<close> is the integer part of the binary logarithm of \<open>y\<close>, for
  \<open>1 \<le> y < 2 ^ 2 ^ n\<close>, found bit by bit from the top.
\<close>

fun floor_log2_upto :: "nat \<Rightarrow> real \<Rightarrow> nat" where
  "floor_log2_upto 0 y = 0"
| "floor_log2_upto (Suc n) y =
     (if 2 ^ (2 ^ n) \<le> y then 2 ^ n + floor_log2_upto n (y / 2 ^ (2 ^ n))
      else floor_log2_upto n y)"

definition floor_log2 :: "real \<Rightarrow> nat" where
  "floor_log2 y = floor_log2_upto 12 y"

definition round_half_even :: "real \<Rightarrow> int" where
  "round_half_even q =
     (let f = \<lfloor>q\<rfloor>; d = q - of_int f
      in if d < 1 / 2 then f else if 1 / 2 < d then f + 1 else if even f then f else f + 1)"

text \<open>
  Rounding of a magnitude \<open>x \<ge> 0\<close> to binary64. With \<open>y\<close> the magnitude in units of the
  smallest subnormal, \<open>2 ^ -1074\<close>: a \<open>y\<close> below \<open>2 ^ 53\<close> has its last place at the unit;
  a larger one has 53 significant bits, so its last place is \<open>sh\<close> bits up. The result
  is \<open>None\<close> when the rounded magnitude reaches \<open>2 ^ 1024\<close>: overflow.
\<close>

definition round_mag :: "real \<Rightarrow> real option" where
  "round_mag x =
     (let y = x * 2 ^ 1074
      in if 2 ^ 2098 \<le> y then None
         else
           (let sh = (if y < 2 ^ 53 then 0 else floor_log2 y - 52);
                r = of_int (round_half_even (y / 2 ^ sh)) * 2 ^ sh
            in if 2 ^ 2098 \<le> r then None else Some (r / 2 ^ 1074)))"

definition round_double :: "real \<Rightarrow> double" where
  "round_double v =
     (case round_mag \<bar>v\<bar> of None \<Rightarrow> Infinite (v < 0) | Some m \<Rightarrow> Finite (v < 0) m)"

text \<open>A real number that is a binary64 number: rounding leaves it as it is.\<close>

definition representable :: "real \<Rightarrow> bool" where
  "representable v \<longleftrightarrow> round_mag \<bar>v\<bar> = Some \<bar>v\<bar>"

text \<open>
  Addition. An exact sum of zero is \<open>+0\<close>, unless both operands are \<open>-0\<close>; any other
  sum is rounded and has the sign of the exact sum.
\<close>

fun dadd :: "double \<Rightarrow> double \<Rightarrow> double" where
  "dadd NaN y = NaN"
| "dadd x NaN = NaN"
| "dadd (Infinite s) (Infinite t) = (if s = t then Infinite s else NaN)"
| "dadd (Infinite s) y = Infinite s"
| "dadd x (Infinite t) = Infinite t"
| "dadd (Finite s a) (Finite t b) =
     (let v = value_of (Finite s a) + value_of (Finite t b)
      in if v = 0 then Finite (s \<and> t) 0 else round_double v)"

text \<open>
  Division. The sign of the quotient is the exclusive or of the signs; 0/0 and
  \<open>\<infinity>/\<infinity>\<close> are NaN, a nonzero number over zero is an infinity, and no division raises.
\<close>

fun ddiv :: "double \<Rightarrow> double \<Rightarrow> double" where
  "ddiv NaN y = NaN"
| "ddiv x NaN = NaN"
| "ddiv (Infinite s) (Infinite t) = NaN"
| "ddiv (Infinite s) (Finite t b) = Infinite (s \<noteq> t)"
| "ddiv (Finite s a) (Infinite t) = Finite (s \<noteq> t) 0"
| "ddiv (Finite s a) (Finite t b) =
     (if b = 0 then (if a = 0 then NaN else Infinite (s \<noteq> t))
      else if a = 0 then Finite (s \<noteq> t) 0
      else (case round_mag (\<bar>a\<bar> / \<bar>b\<bar>) of
              None \<Rightarrow> Infinite (s \<noteq> t)
            | Some m \<Rightarrow> Finite (s \<noteq> t) m))"

text \<open>
  \<^verbatim>\<open>static_cast<double>(n)\<close> for a \<^verbatim>\<open>size_t\<close> n, which is below \<open>2 ^ 64\<close>: the nearest
  binary64 number.
\<close>

definition double_of_size_t :: "nat \<Rightarrow> double" where
  "double_of_size_t n = round_double (real n)"

text \<open>
  The running sums of a summation from \<open>a\<close> are all binary64 numbers: no addition rounds.
\<close>

fun exact_sums :: "real \<Rightarrow> real list \<Rightarrow> bool" where
  "exact_sums a [] = True"
| "exact_sums a (v # vs) = (representable (a + v) \<and> exact_sums (a + v) vs)"

subsection \<open>Outcomes of a call\<close>

text \<open>
  A call on the ensemble ends in one of four ways: it returns; an exception of a
  particle's method passes through it (the header has no \<^verbatim>\<open>try\<close>); the assertion
  of \<^verbatim>\<open>boost::ptr_vector::operator[]\<close> on the index fails; or an uninitialised local
  variable is read.
\<close>

datatype 'e failure = Thrown 'e | IndexAssertion | UninitialisedRead

subsection \<open>The interfaces of the particles\<close>

record ('g, 'v, 'p, 'e) NonParametricProcess =
  np_fitSurrogateModel :: "'g \<Rightarrow> ('e + unit) \<times> 'g"
  np_updateSurrogateModel :: "'g \<Rightarrow> ('e + unit) \<times> 'g"
  np_prediction :: "'g \<Rightarrow> 'v \<Rightarrow> ('e + 'p) \<times> 'g"

text \<open>
  \<^verbatim>\<open>getBestCriteria(vectord& best)\<close> has an in-out parameter: the method receives the
  caller's vector and returns the label together with the vector as it leaves it.
\<close>

record ('c, 'v, 'e) Criteria =
  cr_evaluate :: "'c \<Rightarrow> 'v \<Rightarrow> ('e + double) \<times> 'c"
  cr_update :: "'c \<Rightarrow> 'v \<Rightarrow> ('e + unit) \<times> 'c"
  cr_requireComparison :: "'c \<Rightarrow> ('e + bool) \<times> 'c"
  cr_initialCriteria :: "'c \<Rightarrow> ('e + unit) \<times> 'c"
  cr_pushResult :: "'c \<Rightarrow> 'v \<Rightarrow> ('e + unit) \<times> 'c"
  cr_rotateCriteria :: "'c \<Rightarrow> ('e + bool) \<times> 'c"
  cr_getBestCriteria :: "'c \<Rightarrow> 'v \<Rightarrow> ('e + string \<times> 'v) \<times> 'c"

subsection \<open>The ensemble\<close>

text \<open>
  The members of \<^verbatim>\<open>MCMCModel\<close>. \<^verbatim>\<open>nParticles\<close> is a \<^verbatim>\<open>size_t\<close> that the header only
  reads; it is a natural number here. The two \<^verbatim>\<open>ptr_vector\<close>s are lists of the
  states of the objects they own.
\<close>

record ('g, 'c, 'k) MCMCModel =
  nParticles :: nat
  mGP :: "'g list"
  mCrit :: "'c list"
  kSampler :: 'k

text \<open>
  The loop \<^verbatim>\<open>for (it = v.begin(); it != v.end(); ++it) it->m();\<close> over a collection:
  the method runs on the elements in index order; the first exception ends the loop
  and leaves the later elements as they were.
\<close>

fun for_each :: "('a \<Rightarrow> ('e + unit) \<times> 'a) \<Rightarrow> 'a list \<Rightarrow> ('e + unit) \<times> 'a list" where
  "for_each m [] = (Inr (), [])"
| "for_each m (x # xs) =
     (case m x of
        (Inl e, x') \<Rightarrow> (Inl e, x' # xs)
      | (Inr _, x') \<Rightarrow> (case for_each m xs of (r, xs') \<Rightarrow> (r, x' # xs')))"

definition lift_failure :: "'e + 'a \<Rightarrow> 'e failure + 'a" where
  "lift_failure r = (case r of Inl e \<Rightarrow> Inl (Thrown e) | Inr a \<Rightarrow> Inr a)"

definition fitSurrogateModel ::
  "('g, 'v, 'p, 'e) NonParametricProcess \<Rightarrow> ('g, 'c, 'k) MCMCModel
     \<Rightarrow> ('e failure + unit) \<times> ('g, 'c, 'k) MCMCModel" where
  "fitSurrogateModel G st =
     (case for_each (np_fitSurrogateModel G) (mGP st) of
        (r, gs) \<Rightarrow> (lift_failure r, st\<lparr>mGP := gs\<rparr>))"

definition updateSurrogateModel ::
  "('g, 'v, 'p, 'e) NonParametricProcess \<Rightarrow> ('g, 'c, 'k) MCMCModel
     \<Rightarrow> ('e failure + unit) \<times> ('g, 'c, 'k) MCMCModel" where
  "updateSurrogateModel G st =
     (case for_each (np_updateSurrogateModel G) (mGP st) of
        (r, gs) \<Rightarrow> (lift_failure r, st\<lparr>mGP := gs\<rparr>))"

text \<open>
  The loop of \<^verbatim>\<open>evaluateCriteria\<close>: \<^verbatim>\<open>sum += it->evaluate(query)\<close> for every criterion
  in index order, \<open>acc\<close> being the value of \<^verbatim>\<open>sum\<close> so far.
\<close>

fun evaluate_loop ::
  "('c, 'v, 'e) Criteria \<Rightarrow> 'v \<Rightarrow> double \<Rightarrow> 'c list \<Rightarrow> ('e + double) \<times> 'c list" where
  "evaluate_loop C query acc [] = (Inr acc, [])"
| "evaluate_loop C query acc (c # cs) =
     (case cr_evaluate C c query of
        (Inl e, c') \<Rightarrow> (Inl e, c' # cs)
      | (Inr v, c') \<Rightarrow>
          (case evaluate_loop C query (dadd acc v) cs of (r, cs') \<Rightarrow> (r, c' # cs')))"

definition evaluateCriteria ::
  "('c, 'v, 'e) Criteria \<Rightarrow> 'v \<Rightarrow> ('g, 'c, 'k) MCMCModel
     \<Rightarrow> ('e failure + double) \<times> ('g, 'c, 'k) MCMCModel" where
  "evaluateCriteria C query st =
     (case evaluate_loop C query (Finite False 0) (mCrit st) of
        (Inl e, cs) \<Rightarrow> (Inl (Thrown e), st\<lparr>mCrit := cs\<rparr>)
      | (Inr acc, cs) \<Rightarrow>
          (Inr (ddiv acc (double_of_size_t (nParticles st))), st\<lparr>mCrit := cs\<rparr>))"

definition updateCriteria ::
  "('c, 'v, 'e) Criteria \<Rightarrow> 'v \<Rightarrow> ('g, 'c, 'k) MCMCModel
     \<Rightarrow> ('e failure + unit) \<times> ('g, 'c, 'k) MCMCModel" where
  "updateCriteria C query st =
     (case for_each (\<lambda>c. cr_update C c query) (mCrit st) of
        (r, cs) \<Rightarrow> (lift_failure r, st\<lparr>mCrit := cs\<rparr>))"

text \<open>
  \<^verbatim>\<open>mCrit[0]\<close> and \<^verbatim>\<open>mGP[0]\<close> go through \<^verbatim>\<open>ptr_vector::operator[]\<close>, which asserts
  that the index is below the size: on an empty collection the call ends there.
\<close>

definition criteriaRequiresComparison ::
  "('c, 'v, 'e) Criteria \<Rightarrow> ('g, 'c, 'k) MCMCModel
     \<Rightarrow> ('e failure + bool) \<times> ('g, 'c, 'k) MCMCModel" where
  "criteriaRequiresComparison C st =
     (case mCrit st of
        [] \<Rightarrow> (Inl IndexAssertion, st)
      | c # cs \<Rightarrow>
          (case cr_requireComparison C c of
             (r, c') \<Rightarrow> (lift_failure r, st\<lparr>mCrit := c' # cs\<rparr>)))"

definition setFirstCriterium ::
  "('c, 'v, 'e) Criteria \<Rightarrow> ('g, 'c, 'k) MCMCModel
     \<Rightarrow> ('e failure + unit) \<times> ('g, 'c, 'k) MCMCModel" where
  "setFirstCriterium C st =
     (case for_each (cr_initialCriteria C) (mCrit st) of
        (r, cs) \<Rightarrow> (lift_failure r, st\<lparr>mCrit := cs\<rparr>))"

text \<open>
  The loop of \<^verbatim>\<open>setNextCriterium\<close>: \<^verbatim>\<open>rotated = it->rotateCriteria()\<close> for every
  criterion in index order. The local \<^verbatim>\<open>bool rotated;\<close> is declared without a value:
  it is \<open>None\<close> until the first assignment.
\<close>

fun rotate_loop ::
  "('c, 'v, 'e) Criteria \<Rightarrow> bool option \<Rightarrow> 'c list \<Rightarrow> ('e + bool option) \<times> 'c list" where
  "rotate_loop C rotated [] = (Inr rotated, [])"
| "rotate_loop C rotated (c # cs) =
     (case cr_rotateCriteria C c of
        (Inl e, c') \<Rightarrow> (Inl e, c' # cs)
      | (Inr b, c') \<Rightarrow>
          (case rotate_loop C (Some b) cs of (r, cs') \<Rightarrow> (r, c' # cs')))"

definition setNextCriterium ::
  "('c, 'v, 'e) Criteria \<Rightarrow> 'v \<Rightarrow> ('g, 'c, 'k) MCMCModel
     \<Rightarrow> ('e failure + bool) \<times> ('g, 'c, 'k) MCMCModel" where
  "setNextCriterium C prevResult st =
     (case mCrit st of
        [] \<Rightarrow> (Inl IndexAssertion, st)
      | c # cs \<Rightarrow>
          (case cr_pushResult C c prevResult of
             (Inl e, c') \<Rightarrow> (Inl (Thrown e), st\<lparr>mCrit := c' # cs\<rparr>)
           | (Inr _, c') \<Rightarrow>
               (case rotate_loop C None (c' # cs) of
                  (Inl e, cs') \<Rightarrow> (Inl (Thrown e), st\<lparr>mCrit := cs'\<rparr>)
                | (Inr None, cs') \<Rightarrow> (Inl UninitialisedRead, st\<lparr>mCrit := cs'\<rparr>)
                | (Inr (Some rotated), cs') \<Rightarrow> (Inr rotated, st\<lparr>mCrit := cs'\<rparr>))))"

definition getBestCriteria ::
  "('c, 'v, 'e) Criteria \<Rightarrow> 'v \<Rightarrow> ('g, 'c, 'k) MCMCModel
     \<Rightarrow> ('e failure + string \<times> 'v) \<times> ('g, 'c, 'k) MCMCModel" where
  "getBestCriteria C best st =
     (case mCrit st of
        [] \<Rightarrow> (Inl IndexAssertion, st)
      | c # cs \<Rightarrow>
          (case cr_getBestCriteria C c best of
             (r, c') \<Rightarrow> (lift_failure r, st\<lparr>mCrit := c' # cs\<rparr>)))"

definition getPrediction ::
  "('g, 'v, 'p, 'e) NonParametricProcess \<Rightarrow> 'v \<Rightarrow> ('g, 'c, 'k) MCMCModel
     \<Rightarrow> ('e failure + 'p) \<times> ('g, 'c, 'k) MCMCModel" where
  "getPrediction G query st =
     (case mGP st of
        [] \<Rightarrow> (Inl IndexAssertion, st)
      | g # gs \<Rightarrow>
          (case np_prediction G g query of
             (r, g') \<Rightarrow> (lift_failure r, st\<lparr>mGP := g' # gs\<rparr>)))"

subsection \<open>Construction and resampling\<close>

text \<open>
  The constructor, \<^verbatim>\<open>updateHyperParameters\<close>, \<^verbatim>\<open>setSurrogateModel\<close> and \<^verbatim>\<open>setCriteria\<close>
  are declared in the header and defined in a file that is not among the sources. The
  sampler and the two factories they call are a record of functions: the sampler
  returns the particle of every slot, or nothing when it cannot produce particles.
\<close>

record ('g, 'c, 'k, 't, 'cfg) Collaborators =
  sample :: "nat \<Rightarrow> 'cfg \<Rightarrow> 'k \<Rightarrow> (nat \<Rightarrow> 't) option \<times> 'k"
  prior_particle :: "'cfg \<Rightarrow> nat \<Rightarrow> 't"
  create_surrogate :: "'t \<Rightarrow> 'cfg \<Rightarrow> 'g"
  create_criterion :: "'g \<Rightarrow> 'cfg \<Rightarrow> 'c"
  n_particles :: "'cfg \<Rightarrow> nat"
  valid_dimension :: "nat \<Rightarrow> bool"

datatype spec_error = ConfigurationError | SamplingError

text \<open>
  Modelled from the spec: the constructor \<^verbatim>\<open>MCMCModel(dim, params, eng)\<close>, whose body
  is missing. It computes \<^verbatim>\<open>nParticles\<close> from the configuration, fails with
  \<open>ConfigurationError\<close> on an invalid dimension or particle count, and populates both
  collections with one untrained surrogate per slot, built from the prior, and one
  criterion bound to each surrogate.
\<close>

definition MCMCModel_new ::
  "('g, 'c, 'k, 't, 'cfg) Collaborators \<Rightarrow> nat \<Rightarrow> 'cfg \<Rightarrow> 'k
     \<Rightarrow> spec_error + ('g, 'c, 'k) MCMCModel" where
  "MCMCModel_new F dims params eng =
     (if \<not> valid_dimension F dims \<or> n_particles F params = 0
      then Inl ConfigurationError
      else
        (let gs = map (\<lambda>i. create_surrogate F (prior_particle F params i) params)
                      [0..<n_particles F params]
         in Inr \<lparr>nParticles = n_particles F params,
                  mGP = gs,
                  mCrit = map (\<lambda>g. create_criterion F g params) gs,
                  kSampler = eng\<rparr>))"

text \<open>
  Modelled from the spec: \<^verbatim>\<open>updateHyperParameters()\<close>, whose body is missing. It fails
  with \<open>ConfigurationError\<close> if \<^verbatim>\<open>nParticles\<close> is 0 or the dimension is invalid, and
  with \<open>SamplingError\<close> if the sampler cannot produce particles; otherwise it builds
  every surrogate and criterion anew from the fresh particles. A failed call leaves the
  ensemble as it was. The dimension and the configuration are those of the construction.
\<close>

definition updateHyperParameters ::
  "('g, 'c, 'k, 't, 'cfg) Collaborators \<Rightarrow> nat \<Rightarrow> 'cfg \<Rightarrow> ('g, 'c, 'k) MCMCModel
     \<Rightarrow> (spec_error + unit) \<times> ('g, 'c, 'k) MCMCModel" where
  "updateHyperParameters F dims params st =
     (if nParticles st = 0 \<or> \<not> valid_dimension F dims
      then (Inl ConfigurationError, st)
      else
        (case sample F dims params (kSampler st) of
           (None, k) \<Rightarrow> (Inl SamplingError, st)
         | (Some particle, k) \<Rightarrow>
             (let gs = map (\<lambda>i. create_surrogate F (particle i) params)
                           [0..<nParticles st]
              in (Inr (), st\<lparr>mGP := gs,
                              mCrit := map (\<lambda>g. create_criterion F g params) gs,
                              kSampler := k\<rparr>))))"

subsection \<open>Clients\<close>

text \<open>
  The public member functions, as a client can call them on an ensemble it has
  constructed, and the state a sequence of calls leaves behind, whatever their outcomes.
\<close>

datatype 'v call =
    UpdateHyperParameters
  | FitSurrogateModel
  | UpdateSurrogateModel
  | EvaluateCriteria 'v
  | UpdateCriteria 'v
  | CriteriaRequiresComparison
  | SetFirstCriterium
  | SetNextCriterium 'v
  | GetBestCriteria 'v
  | GetPrediction 'v

fun state_after ::
  "('g, 'c, 'k, 't, 'cfg) Collaborators \<Rightarrow> ('g, 'v, 'p, 'e) NonParametricProcess
     \<Rightarrow> ('c, 'v, 'e) Criteria \<Rightarrow> nat \<Rightarrow> 'cfg \<Rightarrow> 'v call
     \<Rightarrow> ('g, 'c, 'k) MCMCModel \<Rightarrow> ('g, 'c, 'k) MCMCModel" where
  "state_after F G C dims params UpdateHyperParameters st =
     snd (updateHyperParameters F dims params st)"
| "state_after F G C dims params FitSurrogateModel st = snd (fitSurrogateModel G st)"
| "state_after F G C dims params UpdateSurrogateModel st = snd (updateSurrogateModel G st)"
| "state_after F G C dims params (EvaluateCriteria q) st = snd (evaluateCriteria C q st)"
| "state_after F G C dims params (UpdateCriteria q) st = snd (updateCriteria C q st)"
| "state_after F G C dims params CriteriaRequiresComparison st =
     snd (criteriaRequiresComparison C st)"
| "state_after F G C dims params SetFirstCriterium st = snd (setFirstCriterium C st)"
| "state_after F G C dims params (SetNextCriterium r) st = snd (setNextCriterium C r st)"
| "state_after F G C dims params (GetBestCriteria b) st = snd (getBestCriteria C b st)"
| "state_after F G C dims params (GetPrediction q) st = snd (getPrediction G q st)"

fun run_calls ::
  "('g, 'c, 'k, 't, 'cfg) Collaborators \<Rightarrow> ('g, 'v, 'p, 'e) NonParametricProcess
     \<Rightarrow> ('c, 'v, 'e) Criteria \<Rightarrow> nat \<Rightarrow> 'cfg \<Rightarrow> 'v call list
     \<Rightarrow> ('g, 'c, 'k) MCMCModel \<Rightarrow> ('g, 'c, 'k) MCMCModel" where
  "run_calls F G C dims params [] st = st"
| "run_calls F G C dims params (c # cs) st =
     run_calls F G C dims params cs (state_after F G C dims params c st)"

text \<open>
  A sequence of \<^verbatim>\<open>setNextCriterium\<close> calls, one per result vector; the sequence goes on
  while the calls return.
\<close>

fun setNextCriterium_all ::
  "('c, 'v, 'e) Criteria \<Rightarrow> 'v list \<Rightarrow> ('g, 'c, 'k) MCMCModel
     \<Rightarrow> ('g, 'c, 'k) MCMCModel option" where
  "setNextCriterium_all C [] st = Some st"
| "setNextCriterium_all C (r # rs) st =
     (case setNextCriterium C r st of
        (Inl e, st') \<Rightarrow> None
      | (Inr rotated, st') \<Rightarrow> setNextCriterium_all C rs st')"

text \<open>
  Modelled from the spec: the class \<^verbatim>\<open>Criteria\<close> is missing, and with it what its
  methods do to the active criterion. By the spec the rotation is one transition of the
  selection state, the same on every particle, and \<^verbatim>\<open>pushResult\<close> records a result
  without selecting a criterion. For \<open>idx\<close> reading the index of the active criterion
  off the state of a criterion: a \<^verbatim>\<open>pushResult\<close> that returns keeps the index, and
  \<^verbatim>\<open>rotateCriteria\<close>, where it returns, takes equal indices to equal indices.
\<close>

definition selection_contract :: "('c, 'v, 'e) Criteria \<Rightarrow> ('c \<Rightarrow> nat) \<Rightarrow> bool" where
  "selection_contract C idx \<longleftrightarrow>
     (\<forall>c r. \<not> isl (fst (cr_pushResult C c r)) \<longrightarrow>
        idx (snd (cr_pushResult C c r)) = idx c) \<and>
     (\<forall>c c'. idx c = idx c' \<and> \<not> isl (fst (cr_rotateCriteria C c))
          \<and> \<not> isl (fst (cr_rotateCriteria C c')) \<longrightarrow>
        idx (snd (cr_rotateCriteria C c)) = idx (snd (cr_rotateCriteria C c')))"

definition synchronised :: "('c \<Rightarrow> nat) \<Rightarrow> ('g, 'c, 'k) MCMCModel \<Rightarrow> bool" where
  "synchronised idx st \<longleftrightarrow> (\<forall>c \<in> set (mCrit st). \<forall>c' \<in> set (mCrit st). idx c = idx c')"

subsection \<open>Test doubles\<close>

text \<open>
  Particles for concrete runs. The surrogate double fails to fit when its covariance is
  singular. The criterion double evaluates to a constant of its own, the binary64
  number nearest to \<open>sc_value\<close>, and cycles through three criteria. Vectors are lists of
  reals, exceptions are their messages.
\<close>

record stub_gp =
  sg_theta :: real
  sg_singular :: bool
  sg_fitted :: bool

definition stub_fit :: "stub_gp \<Rightarrow> (string + unit) \<times> stub_gp" where
  "stub_fit g =
     (if sg_singular g then (Inl ''Cholesky decomposition error'', g)
      else (Inr (), g\<lparr>sg_fitted := True\<rparr>))"

definition stub_G :: "(stub_gp, real list, real \<times> real, string) NonParametricProcess" where
  "stub_G =
     \<lparr>np_fitSurrogateModel = stub_fit,
      np_updateSurrogateModel = stub_fit,
      np_prediction = (\<lambda>g q. (Inr (sg_theta g, 1), g))\<rparr>"

record stub_crit =
  sc_value :: real
  sc_index :: nat
  sc_results :: "real list list"

definition stub_rotate :: "stub_crit \<Rightarrow> (string + bool) \<times> stub_crit" where
  "stub_rotate c = (Inr (Suc (sc_index c) < 3), c\<lparr>sc_index := Suc (sc_index c)\<rparr>)"

definition stub_C :: "(stub_crit, real list, string) Criteria" where
  "stub_C =
     \<lparr>cr_evaluate = (\<lambda>c q. (Inr (round_double (sc_value c)), c)),
      cr_update = (\<lambda>c q. (Inr (), c)),
      cr_requireComparison = (\<lambda>c. (Inr True, c)),
      cr_initialCriteria = (\<lambda>c. (Inr (), c\<lparr>sc_index := 0, sc_results := []\<rparr>)),
      cr_pushResult = (\<lambda>c r. (Inr (), c\<lparr>sc_results := sc_results c @ [r]\<rparr>)),
      cr_rotateCriteria = stub_rotate,
      cr_getBestCriteria =
        (\<lambda>c best. (Inr (''stub'', (case sc_results c of [] \<Rightarrow> best | r # rs \<Rightarrow> r)), c))\<rparr>"

definition stub_F :: "(stub_gp, stub_crit, nat, real, nat) Collaborators" where
  "stub_F =
     \<lparr>sample = (\<lambda>dims cfg k. (Some (\<lambda>i. real (k + i)), Suc k)),
      prior_particle = (\<lambda>cfg i. 0),
      create_surrogate = (\<lambda>t cfg. \<lparr>sg_theta = t, sg_singular = False, sg_fitted = False\<rparr>),
      create_criterion = (\<lambda>g cfg. \<lparr>sc_value = sg_theta g, sc_index = 0, sc_results = []\<rparr>),
      n_particles = (\<lambda>cfg. cfg),
      valid_dimension = (\<lambda>dims. 0 < dims)\<rparr>"

definition stub_crit_of :: "real \<Rightarrow> stub_crit" where
  "stub_crit_of v = \<lparr>sc_value = v, sc_index = 0, sc_results = []\<rparr>"

definition stub_gp_of :: "bool \<Rightarrow> stub_gp" where
  "stub_gp_of s = \<lparr>sg_theta = 1, sg_singular = s, sg_fitted = False\<rparr>"

text \<open>An ensemble of three particles whose criteria evaluate to 0.1, 0.2 and 0.3.\<close>

definition stub_ensemble :: "(stub_gp, stub_crit, nat) MCMCModel" where
  "stub_ensemble =
     \<lparr>nParticles = 3,
      mGP = [stub_gp_of False, stub_gp_of False, stub_gp_of False],
      mCrit = [stub_crit_of (1 / 10), stub_crit_of (2 / 10), stub_crit_of (3 / 10)],
      kSampler = 0\<rparr>"

text \<open>An ensemble without particles, and one that shares only particle 0 with the first.\<close>

definition empty_ensemble :: "(stub_gp, stub_crit, nat) MCMCModel" where
  "empty_ensemble = \<lparr>nParticles = 0, mGP = [], mCrit = [], kSampler = 0\<rparr>"

definition other_ensemble :: "(stub_gp, stub_crit, nat) MCMCModel" where
  "other_ensemble =
     \<lparr>nParticles = 2,
      mGP = [stub_gp_of False, stub_gp_of True],
      mCrit = [stub_crit_of (1 / 10), \<lparr>sc_value = 5, sc_index = 2, sc_results = [[1]]\<rparr>],
      kSampler = 4\<rparr>"

text \<open>
  Ensembles for the aggregation: three criteria that evaluate to 0.25, 0.5 and 0.75;
  two that evaluate to \<open>2 ^ 1023\<close>; three that evaluate to \<open>2 ^ 53\<close>, 1 and \<open>- 2 ^ 53\<close>;
  and two ensembles whose \<^verbatim>\<open>nParticles\<close> is not the number of their criteria.
\<close>

definition quarters_ensemble :: "(stub_gp, stub_crit, nat) MCMCModel" where
  "quarters_ensemble =
     \<lparr>nParticles = 3,
      mGP = [stub_gp_of False, stub_gp_of False, stub_gp_of False],
      mCrit = [stub_crit_of (1 / 4), stub_crit_of (1 / 2), stub_crit_of (3 / 4)],
      kSampler = 0\<rparr>"

definition huge_ensemble :: "(stub_gp, stub_crit, nat) MCMCModel" where
  "huge_ensemble =
     \<lparr>nParticles = 2,
      mGP = [stub_gp_of False, stub_gp_of False],
      mCrit = [stub_crit_of (2 ^ 1023), stub_crit_of (2 ^ 1023)],
      kSampler = 0\<rparr>"

definition cancelling_ensemble :: "(stub_gp, stub_crit, nat) MCMCModel" where
  "cancelling_ensemble =
     \<lparr>nParticles = 3,
      mGP = [stub_gp_of False, stub_gp_of False, stub_gp_of False],
      mCrit = [stub_crit_of (2 ^ 53), stub_crit_of 1, stub_crit_of (- (2 ^ 53))],
      kSampler = 0\<rparr>"

definition short_ensemble :: "(stub_gp, stub_crit, nat) MCMCModel" where
  "short_ensemble =
     \<lparr>nParticles = 2, mGP = [stub_gp_of False], mCrit = [stub_crit_of 3], kSampler = 0\<rparr>"

definition uncounted_ensemble :: "(stub_gp, stub_crit, nat) MCMCModel" where
  "uncounted_ensemble =
     \<lparr>nParticles = 0, mGP = [stub_gp_of False], mCrit = [stub_crit_of 1], kSampler = 0\<rparr>"

text \<open>Two ensembles in which one surrogate has a singular covariance.\<close>

definition singular_last :: "(stub_gp, stub_crit, nat) MCMCModel" where
  "singular_last =
     stub_ensemble\<lparr>mGP := [stub_gp_of False, stub_gp_of False, stub_gp_of True]\<rparr>"

definition singular_first :: "(stub_gp, stub_crit, nat) MCMCModel" where
  "singular_first =
     stub_ensemble\<lparr>mGP := [stub_gp_of True, stub_gp_of False, stub_gp_of False]\<rparr>"

text \<open>The ensemble that the constructor builds from the test doubles for three particles.\<close>

definition stub_fresh :: "(stub_gp, stub_crit, nat) MCMCModel" where
  "stub_fresh =
     \<lparr>nParticles = 3,
      mGP = replicate 3 \<lparr>sg_theta = 0, sg_singular = False, sg_fitted = False\<rparr>,
      mCrit = replicate 3 \<lparr>sc_value = 0, sc_index = 0, sc_results = []\<rparr>,
      kSampler = 0\<rparr>"

text \<open>The three places that hold the size of an ensemble.\<close>

definition particle_counts :: "('g, 'c, 'k) MCMCModel \<Rightarrow> nat \<times> nat \<times> nat" where
  "particle_counts st = (nParticles st, length (mGP st), length (mCrit st))"

lemmas stub_defs = stub_ensemble_def stub_C_def stub_G_def stub_F_def stub_crit_of_def
  stub_gp_of_def stub_fit_def stub_rotate_def empty_ensemble_def other_ensemble_def

section \<open>Binary64 arithmetic\<close>

lemma floor_log2_upto_bounds:
  "1 \<le> y \<Longrightarrow> y < 2 ^ (2 ^ n) \<Longrightarrow>
   2 ^ floor_log2_upto n y \<le> y \<and> y < 2 * 2 ^ floor_log2_upto n y"
proof (induction n arbitrary: y)
  case 0
  then show ?case by simp
next
  case (Suc n)
  let ?p = "(2::real) ^ (2 ^ n)"
  have p: "0 < ?p" by simp
  show ?case
  proof (cases "?p \<le> y")
    case True
    have sq: "(2::real) ^ (2 ^ Suc n) = ?p * ?p"
      by (simp add: power_add [symmetric] mult_2)
    have lo: "1 \<le> y / ?p" using True p by (simp add: le_divide_eq)
    have hi: "y / ?p < ?p" using Suc.prems(2) p unfolding sq by (simp add: divide_less_eq)
    from Suc.IH [OF lo hi] have
      a: "2 ^ floor_log2_upto n (y / ?p) \<le> y / ?p" and
      b: "y / ?p < 2 * 2 ^ floor_log2_upto n (y / ?p)"
      by simp_all
    from a p have "?p * 2 ^ floor_log2_upto n (y / ?p) \<le> y"
      by (simp add: le_divide_eq mult.commute)
    moreover from b p have "y < ?p * (2 * 2 ^ floor_log2_upto n (y / ?p))"
      by (simp add: divide_less_eq mult.commute)
    ultimately show ?thesis using True
      by (simp add: power_add)
  next
    case False
    then have "y < ?p" by simp
    from Suc.IH [OF Suc.prems(1) this] False show ?thesis by simp
  qed
qed

lemma floor_log2_bounds:
  assumes "1 \<le> y" and "y < 2 ^ 4096"
  shows "2 ^ floor_log2 y \<le> y \<and> y < 2 * 2 ^ floor_log2 y"
proof -
  have "(2::nat) ^ 12 = 4096" by simp
  then have "y < 2 ^ (2 ^ 12)" using assms(2) by simp
  from floor_log2_upto_bounds [OF assms(1) this] show ?thesis
    by (simp add: floor_log2_def)
qed

lemma floor_log2_upto_numeral:
  "floor_log2_upto (numeral k) y =
     (if 2 ^ (2 ^ pred_numeral k) \<le> y
      then 2 ^ pred_numeral k + floor_log2_upto (pred_numeral k) (y / 2 ^ (2 ^ pred_numeral k))
      else floor_log2_upto (pred_numeral k) y)"
  by (simp add: numeral_eq_Suc)

lemma floor_log2_upto_1: "floor_log2_upto 1 y = (if 2 \<le> y then 1 else 0)"
  using floor_log2_upto.simps(2) [of 0 y] by simp

lemmas binary64_eval = round_double_def round_mag_def round_half_even_def floor_log2_def
  Let_def floor_log2_upto_numeral floor_log2_upto_1 double_of_size_t_def representable_def

lemma round_double_zero: "round_double 0 = Finite False 0"
  by (simp add: binary64_eval)

lemma binary64_examples:
  "round_double (1 / 10) = Finite False (3602879701896397 / 2 ^ 55)"
  "dadd (round_double (1 / 10)) (round_double (2 / 10)) = Finite False (1351079888211149 / 2 ^ 52)"
  "dadd (Finite False (2 ^ 53)) (Finite False 1) = Finite False (2 ^ 53)"
  "dadd (Finite False (2 ^ 53)) (Finite False 3) = Finite False (2 ^ 53 + 4)"
  "dadd (Finite False ((2 ^ 53 - 1) * 2 ^ 971)) (Finite False (2 ^ 969))
     = Finite False ((2 ^ 53 - 1) * 2 ^ 971)"
  "dadd (Finite False ((2 ^ 53 - 1) * 2 ^ 971)) (Finite False (2 ^ 970)) = Infinite False"
  "dadd (Finite True 0) (Finite True 0) = Finite True 0"
  "dadd (Finite False 0) (Finite True 0) = Finite False 0"
  "dadd (Finite False 1) (Finite True 1) = Finite False 0"
  "ddiv (Finite False 1) (Finite False 3) = Finite False (6004799503160661 / 2 ^ 54)"
  "ddiv (Finite True (1 / 2 ^ 1074)) (Finite False 2) = Finite True 0"
  "ddiv (Finite False (3 / 2 ^ 1074)) (Finite False 2) = Finite False (2 / 2 ^ 1074)"
  "ddiv (Finite True 1) (Finite False 0) = Infinite True"
  "double_of_size_t (2 ^ 53 + 1) = Finite False (2 ^ 53)"
  "double_of_size_t (2 ^ 64 - 1) = Finite False (2 ^ 64)"
  by (simp_all add: binary64_eval)

section \<open>Aggregation of the criterion\<close>

lemma evaluate_loop_values:
  "map (\<lambda>c. fst (cr_evaluate C c q)) cs = map Inr ds \<Longrightarrow>
   fst (evaluate_loop C q acc cs) = Inr (foldl dadd acc ds)"
proof (induction cs arbitrary: acc ds)
  case Nil
  then show ?case by simp
next
  case (Cons c cs)
  then obtain d ds' where ds: "ds = d # ds'" by (cases ds) auto
  with Cons.prems have hd: "fst (cr_evaluate C c q) = Inr d"
    and tl: "map (\<lambda>c. fst (cr_evaluate C c q)) cs = map Inr ds'"
    by simp_all
  from hd obtain c' where ev: "cr_evaluate C c q = (Inr d, c')"
    by (cases "cr_evaluate C c q") auto
  have "fst (evaluate_loop C q (dadd acc d) cs) = Inr (foldl dadd (dadd acc d) ds')"
    using tl by (rule Cons.IH)
  then show ?case
    by (simp add: ev ds case_prod_beta)
qed

lemma evaluateCriteria_values:
  assumes "map (\<lambda>c. fst (cr_evaluate C c query)) (mCrit st) = map Inr ds"
  shows "fst (evaluateCriteria C query st)
           = Inr (ddiv (foldl dadd (Finite False 0) ds) (double_of_size_t (nParticles st)))"
proof -
  have "fst (evaluate_loop C query (Finite False 0) (mCrit st))
          = Inr (foldl dadd (Finite False 0) ds)"
    using assms by (rule evaluate_loop_values)
  then obtain cs where
    "evaluate_loop C query (Finite False 0) (mCrit st) = (Inr (foldl dadd (Finite False 0) ds), cs)"
    by (cases "evaluate_loop C query (Finite False 0) (mCrit st)") auto
  then show ?thesis
    by (simp add: evaluateCriteria_def)
qed

lemma round_double_exact:
  assumes "representable v"
  shows "round_double v = Finite (v < 0) \<bar>v\<bar>"
  using assms by (simp add: round_double_def representable_def)

lemma dadd_exact:
  assumes "finite_double x" and "finite_double y"
    and "representable (value_of x + value_of y)"
  shows "finite_double (dadd x y) \<and> value_of (dadd x y) = value_of x + value_of y"
proof -
  from assms(1) obtain s a where x: "x = Finite s a" by (cases x) auto
  from assms(2) obtain t b where y: "y = Finite t b" by (cases y) auto
  let ?v = "value_of (Finite s a) + value_of (Finite t b)"
  show ?thesis
  proof (cases "?v = 0")
    case True
    then have "dadd x y = Finite (s \<and> t) 0"
      unfolding x y by (simp only: dadd.simps Let_def) simp
    then show ?thesis using True x y by simp
  next
    case False
    then have "dadd x y = round_double ?v"
      unfolding x y by (simp only: dadd.simps Let_def if_False)
    also have "\<dots> = Finite (?v < 0) \<bar>?v\<bar>"
      using assms(3) unfolding x y by (rule round_double_exact)
    finally have d: "dadd x y = Finite (?v < 0) \<bar>?v\<bar>" .
    have "value_of (Finite (?v < 0) \<bar>?v\<bar>) = ?v"
      by (simp only: value_of.simps) simp
    with d show ?thesis unfolding x y by simp
  qed
qed

lemma foldl_dadd_exact:
  "finite_double acc \<Longrightarrow> list_all finite_double ds \<Longrightarrow>
   exact_sums (value_of acc) (map value_of ds) \<Longrightarrow>
   finite_double (foldl dadd acc ds) \<and>
   value_of (foldl dadd acc ds) = value_of acc + sum_list (map value_of ds)"
proof (induction ds arbitrary: acc)
  case Nil
  then show ?case by simp
next
  case (Cons d ds)
  from Cons.prems have fd: "finite_double d" and fds: "list_all finite_double ds"
    and rep: "representable (value_of acc + value_of d)"
    and rest: "exact_sums (value_of acc + value_of d) (map value_of ds)"
    by simp_all
  from dadd_exact [OF Cons.prems(1) fd rep] have
    f: "finite_double (dadd acc d)" and v: "value_of (dadd acc d) = value_of acc + value_of d"
    by simp_all
  from Cons.IH [OF f fds] rest v show ?case by (simp add: add.assoc)
qed

lemma ddiv_exact:
  assumes "finite_double x" and "n \<noteq> 0" and "representable (real n)"
    and "representable (value_of x / real n)"
  shows "finite_double (ddiv x (double_of_size_t n)) \<and>
         value_of (ddiv x (double_of_size_t n)) = value_of x / real n"
proof -
  from assms(1) obtain s a where x: "x = Finite s a" by (cases x) auto
  have n: "double_of_size_t n = Finite False (real n)"
    using round_double_exact [OF assms(3)] by (simp add: double_of_size_t_def)
  have n0: "real n \<noteq> 0" using assms(2) by simp
  show ?thesis
  proof (cases "a = 0")
    case True
    then have "ddiv x (double_of_size_t n) = Finite (s \<noteq> False) 0"
      unfolding x n using n0 by simp
    then show ?thesis using True x by simp
  next
    case False
    have q: "\<bar>value_of x / real n\<bar> = \<bar>a\<bar> / \<bar>real n\<bar>"
      unfolding x by (simp add: abs_divide)
    from assms(4) have "round_mag (\<bar>a\<bar> / \<bar>real n\<bar>) = Some (\<bar>a\<bar> / \<bar>real n\<bar>)"
      unfolding representable_def q .
    then have "ddiv x (double_of_size_t n) = Finite (s \<noteq> False) (\<bar>a\<bar> / \<bar>real n\<bar>)"
      unfolding x n using n0 False by (simp only: ddiv.simps if_False option.case)
    then show ?thesis unfolding x by simp
  qed
qed

text \<open>
  C1, as the header has it. On an ensemble of \<open>nParticles \<ge> 1\<close> particles whose criteria
  evaluate, at the query, to the doubles \<open>ds\<close> (one per particle, in index order),
  \<^verbatim>\<open>evaluateCriteria\<close> returns the binary64 sum of the values, accumulated from 0.0 in
  index order, divided in binary64 by \<open>nParticles\<close> as a double. This is the arithmetic
  mean of the values whenever the values are finite and the running sums,
  \<open>nParticles\<close> and the mean are binary64 numbers, so that no operation rounds.
\<close>

theorem evaluateCriteria_mean:
  assumes "length (mCrit st) = nParticles st" and "1 \<le> nParticles st"
    and "map (\<lambda>c. fst (cr_evaluate C c query)) (mCrit st) = map Inr ds"
  shows "fst (evaluateCriteria C query st)
           = Inr (ddiv (foldl dadd (Finite False 0) ds) (double_of_size_t (nParticles st)))
         \<and> length ds = nParticles st
         \<and> (list_all finite_double ds \<and> exact_sums 0 (map value_of ds)
              \<and> representable (real (nParticles st))
              \<and> representable (sum_list (map value_of ds) / real (nParticles st)) \<longrightarrow>
            (\<exists>d. fst (evaluateCriteria C query st) = Inr d \<and> finite_double d
               \<and> value_of d = sum_list (map value_of ds) / real (nParticles st)))"
proof (intro conjI impI)
  show r: "fst (evaluateCriteria C query st)
           = Inr (ddiv (foldl dadd (Finite False 0) ds) (double_of_size_t (nParticles st)))"
    using assms(3) by (rule evaluateCriteria_values)
  show "length ds = nParticles st"
    using assms(1) assms(3) by (metis length_map)
  assume ex: "list_all finite_double ds \<and> exact_sums 0 (map value_of ds)
              \<and> representable (real (nParticles st))
              \<and> representable (sum_list (map value_of ds) / real (nParticles st))"
  let ?s = "foldl dadd (Finite False 0) ds"
  have "finite_double ?s \<and> value_of ?s = value_of (Finite False 0) + sum_list (map value_of ds)"
    using ex by (intro foldl_dadd_exact) simp_all
  then have fs: "finite_double ?s" and vs: "value_of ?s = sum_list (map value_of ds)"
    by simp_all
  have n: "nParticles st \<noteq> 0" using assms(2) by simp
  have "finite_double (ddiv ?s (double_of_size_t (nParticles st))) \<and>
        value_of (ddiv ?s (double_of_size_t (nParticles st))) = value_of ?s / real (nParticles st)"
    using fs n ex unfolding vs [symmetric] by (intro ddiv_exact) simp_all
  with r vs show "\<exists>d. fst (evaluateCriteria C query st) = Inr d \<and> finite_double d
               \<and> value_of d = sum_list (map value_of ds) / real (nParticles st)"
    by simp
qed

lemmas aggregation_eval = stub_C_def stub_crit_of_def quarters_ensemble_def huge_ensemble_def
  cancelling_ensemble_def short_ensemble_def uncounted_ensemble_def empty_ensemble_def

theorem evaluateCriteria_mean_witness:
  "length (mCrit quarters_ensemble) = nParticles quarters_ensemble \<and>
   1 \<le> nParticles quarters_ensemble \<and>
   map (\<lambda>c. fst (cr_evaluate stub_C c [1 / 2])) (mCrit quarters_ensemble)
     = map Inr [Finite False (1 / 4), Finite False (1 / 2), Finite False (3 / 4)] \<and>
   exact_sums 0 [1 / 4, 1 / 2, 3 / 4] \<and> representable (real 3) \<and>
   representable ((1 / 4 + 1 / 2 + 3 / 4) / 3) \<and>
   fst (evaluateCriteria stub_C [1 / 2] quarters_ensemble) = Inr (Finite False (1 / 2)) \<and>
   (\<exists>d. fst (evaluateCriteria stub_C [1 / 2] quarters_ensemble) = Inr d \<and> finite_double d
      \<and> value_of d = (1 / 4 + 1 / 2 + 3 / 4) / 3)"
proof -
  let ?ds = "[Finite False (1 / 4), Finite False (1 / 2), Finite False (3 / 4)]"
  have a: "length (mCrit quarters_ensemble) = nParticles quarters_ensemble"
    by (simp add: quarters_ensemble_def)
  have b: "1 \<le> nParticles quarters_ensemble"
    by (simp add: quarters_ensemble_def)
  have c: "map (\<lambda>c. fst (cr_evaluate stub_C c [1 / 2])) (mCrit quarters_ensemble) = map Inr ?ds"
    by (simp add: aggregation_eval binary64_eval)
  have n: "nParticles quarters_ensemble = 3" by (simp add: quarters_ensemble_def)
  have e: "exact_sums 0 [1 / 4, 1 / 2, 3 / 4]" "representable (real 3)"
    "representable ((1 / 4 + 1 / 2 + 3 / 4) / 3)"
    by (simp_all add: binary64_eval)
  have h: "list_all finite_double ?ds \<and> exact_sums 0 (map value_of ?ds)
      \<and> representable (real (nParticles quarters_ensemble))
      \<and> representable (sum_list (map value_of ?ds) / real (nParticles quarters_ensemble))"
    using e by (simp add: n)
  have m: "sum_list (map value_of ?ds) / real (nParticles quarters_ensemble)
             = (1 / 4 + 1 / 2 + 3 / 4) / 3"
    by (simp add: n)
  have x: "\<exists>d. fst (evaluateCriteria stub_C [1 / 2] quarters_ensemble) = Inr d \<and> finite_double d
      \<and> value_of d = (1 / 4 + 1 / 2 + 3 / 4) / 3"
    using evaluateCriteria_mean [OF a b c] h unfolding m by blast
  from evaluateCriteria_mean [OF a b c]
  have "fst (evaluateCriteria stub_C [1 / 2] quarters_ensemble)
          = Inr (ddiv (foldl dadd (Finite False 0) ?ds) (double_of_size_t 3))"
    by (simp add: n)
  also have "ddiv (foldl dadd (Finite False 0) ?ds) (double_of_size_t 3) = Finite False (1 / 2)"
    by (simp add: binary64_eval)
  finally have r: "fst (evaluateCriteria stub_C [1 / 2] quarters_ensemble)
          = Inr (Finite False (1 / 2))" .
  show ?thesis using a b c e r x by (intro conjI)
qed

text \<open>
  C1, as the claim has it, fails: the result is not the arithmetic mean of the values in
  general. Two criteria that evaluate to \<open>2 ^ 1023\<close> have the mean \<open>2 ^ 1023\<close>, a binary64
  number, and the call returns the infinity that their sum overflows to. Three criteria
  that evaluate to \<open>2 ^ 53\<close>, 1 and \<open>- 2 ^ 53\<close> have the mean 1/3, and the call returns 0:
  the 1 is lost when the first sum is rounded.
\<close>

theorem evaluateCriteria_mean_counterexample:
  "length (mCrit huge_ensemble) = nParticles huge_ensemble \<and>
   map (\<lambda>c. fst (cr_evaluate stub_C c [1 / 2])) (mCrit huge_ensemble)
     = map Inr [Finite False (2 ^ 1023), Finite False (2 ^ 1023)] \<and>
   representable ((2 ^ 1023 + 2 ^ 1023) / 2) \<and>
   fst (evaluateCriteria stub_C [1 / 2] huge_ensemble) = Inr (Infinite False) \<and>
   length (mCrit cancelling_ensemble) = nParticles cancelling_ensemble \<and>
   map (\<lambda>c. fst (cr_evaluate stub_C c [1 / 2])) (mCrit cancelling_ensemble)
     = map Inr [Finite False (2 ^ 53), Finite False 1, Finite True (2 ^ 53)] \<and>
   fst (evaluateCriteria stub_C [1 / 2] cancelling_ensemble) = Inr (Finite False 0)"
  by (simp add: evaluateCriteria_def aggregation_eval binary64_eval)

lemma ddiv_by_zero: "\<not> finite_double (ddiv x (Finite False 0))"
  by (cases x) simp_all

text \<open>
  C9. \<^verbatim>\<open>evaluateCriteria\<close> divides the sum by the stored \<^verbatim>\<open>nParticles\<close>, whatever the
  number of criteria it has summed, and has no guard: when \<^verbatim>\<open>nParticles\<close> is 0 the call
  returns all the same, and what it returns is not a number but NaN or an infinity; on
  an ensemble with no criterion it is the NaN of 0.0/0. So the result is a mean only
  when \<^verbatim>\<open>nParticles\<close> is the number of criteria, and at least 1.
\<close>

theorem evaluateCriteria_unguarded:
  "(map (\<lambda>c. fst (cr_evaluate C c query)) (mCrit st) = map Inr ds \<longrightarrow>
      fst (evaluateCriteria C query st)
        = Inr (ddiv (foldl dadd (Finite False 0) ds) (double_of_size_t (nParticles st))))
   \<and> (map (\<lambda>c. fst (cr_evaluate C c query)) (mCrit st) = map Inr ds \<and> nParticles st = 0 \<longrightarrow>
        (\<exists>d. fst (evaluateCriteria C query st) = Inr d \<and> \<not> finite_double d))
   \<and> (mCrit st = [] \<and> nParticles st = 0 \<longrightarrow>
        evaluateCriteria C query st = (Inr NaN, st))"
proof (intro conjI impI)
  assume "map (\<lambda>c. fst (cr_evaluate C c query)) (mCrit st) = map Inr ds"
  then show "fst (evaluateCriteria C query st)
        = Inr (ddiv (foldl dadd (Finite False 0) ds) (double_of_size_t (nParticles st)))"
    by (rule evaluateCriteria_values)
next
  assume h: "map (\<lambda>c. fst (cr_evaluate C c query)) (mCrit st) = map Inr ds \<and> nParticles st = 0"
  then have "fst (evaluateCriteria C query st)
        = Inr (ddiv (foldl dadd (Finite False 0) ds) (double_of_size_t (nParticles st)))"
    by (intro evaluateCriteria_values) simp
  moreover have "double_of_size_t (nParticles st) = Finite False 0"
    using h by (simp add: double_of_size_t_def round_double_zero)
  ultimately show "\<exists>d. fst (evaluateCriteria C query st) = Inr d \<and> \<not> finite_double d"
    by (simp add: ddiv_by_zero)
next
  assume "mCrit st = [] \<and> nParticles st = 0"
  then show "evaluateCriteria C query st = (Inr NaN, st)"
    by (simp add: evaluateCriteria_def double_of_size_t_def round_double_zero)
qed

theorem evaluateCriteria_unguarded_witness:
  "mCrit empty_ensemble = [] \<and> nParticles empty_ensemble = 0 \<and>
   evaluateCriteria stub_C [1 / 2] empty_ensemble = (Inr NaN, empty_ensemble) \<and>
   map (\<lambda>c. fst (cr_evaluate stub_C c [1 / 2])) (mCrit uncounted_ensemble)
     = map Inr [Finite False 1] \<and>
   nParticles uncounted_ensemble = 0 \<and>
   fst (evaluateCriteria stub_C [1 / 2] uncounted_ensemble) = Inr (Infinite False) \<and>
   map (\<lambda>c. fst (cr_evaluate stub_C c [1 / 2])) (mCrit short_ensemble)
     = map Inr [Finite False 3] \<and>
   nParticles short_ensemble = 2 \<and>
   fst (evaluateCriteria stub_C [1 / 2] short_ensemble) = Inr (Finite False (3 / 2))"
proof -
  have e: "mCrit empty_ensemble = [] \<and> nParticles empty_ensemble = 0"
    by (simp add: empty_ensemble_def)
  have u: "map (\<lambda>c. fst (cr_evaluate stub_C c [1 / 2])) (mCrit uncounted_ensemble)
     = map Inr [Finite False 1]" "nParticles uncounted_ensemble = 0"
    by (simp_all add: aggregation_eval binary64_eval)
  have s: "map (\<lambda>c. fst (cr_evaluate stub_C c [1 / 2])) (mCrit short_ensemble)
     = map Inr [Finite False 3]" "nParticles short_ensemble = 2"
    by (simp_all add: aggregation_eval binary64_eval)
  show ?thesis
    using e u s
      evaluateCriteria_unguarded [of stub_C "[1 / 2]" empty_ensemble "[]"]
      evaluateCriteria_unguarded [of stub_C "[1 / 2]" uncounted_ensemble "[Finite False 1]"]
      evaluateCriteria_unguarded [of stub_C "[1 / 2]" short_ensemble "[Finite False 3]"]
    by (simp add: binary64_eval)
qed

section \<open>Rotation of the criterion\<close>

text \<open>
  The local \<^verbatim>\<open>rotated\<close> of \<^verbatim>\<open>setNextCriterium\<close> has a value whenever the function
  reaches its \<^verbatim>\<open>return\<close>: \<^verbatim>\<open>mCrit[0]\<close> has made sure that the loop runs at least once.
\<close>

lemma rotate_loop_assigns:
  "rotate_loop C rotated cs = (Inr None, cs') \<Longrightarrow> rotated = None \<and> cs = []"
proof (induction cs arbitrary: rotated cs')
  case Nil
  then show ?case by simp
next
  case (Cons c cs)
  obtain r c' where rot: "cr_rotateCriteria C c = (r, c')" by (cases "cr_rotateCriteria C c")
  show ?case
  proof (cases r)
    case (Inl e)
    with Cons.prems rot show ?thesis by simp
  next
    case (Inr b)
    obtain ro cs'' where l: "rotate_loop C (Some b) cs = (ro, cs'')"
      by (cases "rotate_loop C (Some b) cs")
    with Cons.prems rot Inr have "ro = Inr None" by simp
    with Cons.IH [of "Some b" cs''] l show ?thesis by simp
  qed
qed

lemma setNextCriterium_rotated_assigned:
  "fst (setNextCriterium C prevResult st) \<noteq> Inl UninitialisedRead"
proof (cases "mCrit st")
  case Nil
  then show ?thesis by (simp add: setNextCriterium_def)
next
  case (Cons c cs)
  obtain p c' where p: "cr_pushResult C c prevResult = (p, c')"
    by (cases "cr_pushResult C c prevResult")
  obtain ro cs' where l: "rotate_loop C None (c' # cs) = (ro, cs')"
    by (cases "rotate_loop C None (c' # cs)")
  have "ro \<noteq> Inr None" using rotate_loop_assigns [of C None "c' # cs" cs'] l by auto
  then show ?thesis using Cons p l
    by (simp add: setNextCriterium_def del: rotate_loop.simps split: sum.splits option.splits)
qed

lemma rotate_loop_returns:
  assumes "\<forall>c \<in> set cs. \<not> isl (fst (cr_rotateCriteria C c))"
  shows "rotate_loop C rotated cs =
           (Inr (if cs = [] then rotated
                 else Some (projr (fst (cr_rotateCriteria C (last cs))))),
            map (\<lambda>c. snd (cr_rotateCriteria C c)) cs)"
  using assms
proof (induction cs arbitrary: rotated)
  case Nil
  then show ?case by simp
next
  case (Cons c cs)
  from Cons.prems obtain b c' where rot: "cr_rotateCriteria C c = (Inr b, c')"
    by (cases "cr_rotateCriteria C c"; cases "fst (cr_rotateCriteria C c)") auto
  from Cons.prems have "\<forall>c \<in> set cs. \<not> isl (fst (cr_rotateCriteria C c))" by simp
  from Cons.IH [OF this, of "Some b"] show ?case
    by (simp add: rot)
qed

text \<open>
  C2. On an ensemble of \<open>nParticles \<ge> 1\<close> particles, when the calls on the criteria
  return, \<^verbatim>\<open>setNextCriterium(prevResult)\<close> leaves the criteria as follows: the criterion
  of particle 0 has received \<^verbatim>\<open>pushResult(prevResult)\<close> and then \<^verbatim>\<open>rotateCriteria()\<close>,
  every other criterion has received \<^verbatim>\<open>rotateCriteria()\<close> alone; and the call returns
  what \<^verbatim>\<open>rotateCriteria()\<close> returned on the particle of index \<open>nParticles - 1\<close>.
\<close>

theorem setNextCriterium_push_first_rotate_all:
  assumes "length (mCrit st) = nParticles st" and "1 \<le> nParticles st"
    and "cr_pushResult C (mCrit st ! 0) prevResult = (Inr u, c0)"
    and "cs = c0 # tl (mCrit st)"
    and "\<forall>c \<in> set cs. \<not> isl (fst (cr_rotateCriteria C c))"
  shows "setNextCriterium C prevResult st =
           (Inr (projr (fst (cr_rotateCriteria C (cs ! (nParticles st - 1))))),
            st\<lparr>mCrit := map (\<lambda>c. snd (cr_rotateCriteria C c)) cs\<rparr>)"
proof -
  from assms(1,2) obtain c cs' where m: "mCrit st = c # cs'"
    by (cases "mCrit st") auto
  have len: "length cs = nParticles st" using assms(1,4) m by simp
  have ne: "cs \<noteq> []" using assms(4) by simp
  have "last cs = cs ! (nParticles st - 1)"
    using len ne by (simp add: last_conv_nth)
  moreover have "rotate_loop C None cs =
           (Inr (Some (projr (fst (cr_rotateCriteria C (last cs))))),
            map (\<lambda>c. snd (cr_rotateCriteria C c)) cs)"
    using rotate_loop_returns [OF assms(5), of None] ne by simp
  ultimately show ?thesis
    using assms(3,4) m by (simp add: setNextCriterium_def)
qed

theorem setNextCriterium_push_first_rotate_all_witness:
  "length (mCrit stub_ensemble) = nParticles stub_ensemble \<and> 1 \<le> nParticles stub_ensemble \<and>
   cr_pushResult stub_C (mCrit stub_ensemble ! 0) [7]
     = (Inr (), \<lparr>sc_value = 1 / 10, sc_index = 0, sc_results = [[7]]\<rparr>) \<and>
   setNextCriterium stub_C [7] stub_ensemble =
     (Inr True,
      stub_ensemble\<lparr>mCrit :=
        [\<lparr>sc_value = 1 / 10, sc_index = 1, sc_results = [[7]]\<rparr>,
         \<lparr>sc_value = 2 / 10, sc_index = 1, sc_results = []\<rparr>,
         \<lparr>sc_value = 3 / 10, sc_index = 1, sc_results = []\<rparr>]\<rparr>)"
proof -
  let ?c0 = "\<lparr>sc_value = 1 / 10, sc_index = 0, sc_results = [[7]]\<rparr>"
  have a: "length (mCrit stub_ensemble) = nParticles stub_ensemble"
    by (simp add: stub_defs)
  have b: "1 \<le> nParticles stub_ensemble"
    by (simp add: stub_defs)
  have c: "cr_pushResult stub_C (mCrit stub_ensemble ! 0) [7] = (Inr (), ?c0)"
    by (simp add: stub_defs)
  have d: "\<forall>c \<in> set (?c0 # tl (mCrit stub_ensemble)). \<not> isl (fst (cr_rotateCriteria stub_C c))"
    by (simp add: stub_defs)
  have n: "nParticles stub_ensemble = 3" by (simp add: stub_defs)
  have t: "?c0 # tl (mCrit stub_ensemble) =
     [?c0, \<lparr>sc_value = 2 / 10, sc_index = 0, sc_results = []\<rparr>,
      \<lparr>sc_value = 3 / 10, sc_index = 0, sc_results = []\<rparr>]"
    by (simp add: stub_defs)
  have r: "\<And>c. cr_rotateCriteria stub_C c = stub_rotate c" by (simp add: stub_C_def)
  show ?thesis
    using a b c setNextCriterium_push_first_rotate_all [OF a b c refl d]
    by (simp add: n t r stub_rotate_def)
qed

lemma rotate_loop_states:
  "rotate_loop C rotated cs = (Inr x, cs') \<Longrightarrow>
   cs' = map (\<lambda>c. snd (cr_rotateCriteria C c)) cs \<and>
   (\<forall>c \<in> set cs. \<not> isl (fst (cr_rotateCriteria C c)))"
proof (induction cs arbitrary: rotated cs')
  case Nil
  then show ?case by simp
next
  case (Cons c cs)
  from Cons.prems obtain b c' where rot: "cr_rotateCriteria C c = (Inr b, c')"
    by (cases "cr_rotateCriteria C c"; cases "fst (cr_rotateCriteria C c)") auto
  from Cons.prems rot obtain cs'' where
    rest: "rotate_loop C (Some b) cs = (Inr x, cs'')" and cs': "cs' = c' # cs''"
    by (cases "rotate_loop C (Some b) cs") auto
  from Cons.IH [OF rest] show ?case
    by (simp add: rot cs')
qed

lemma setNextCriterium_returns:
  assumes "setNextCriterium C r st = (Inr b, st')"
  shows "\<exists>c cs. mCrit st = c # cs \<and> \<not> isl (fst (cr_pushResult C c r)) \<and>
           (\<forall>x \<in> set (snd (cr_pushResult C c r) # cs). \<not> isl (fst (cr_rotateCriteria C x))) \<and>
           mCrit st' = map (\<lambda>x. snd (cr_rotateCriteria C x)) (snd (cr_pushResult C c r) # cs)"
proof -
  from assms obtain c cs where m: "mCrit st = c # cs"
    by (cases "mCrit st") (auto simp: setNextCriterium_def)
  from assms m obtain u c' where p: "cr_pushResult C c r = (Inr u, c')"
    by (cases "cr_pushResult C c r"; cases "fst (cr_pushResult C c r)")
      (auto simp: setNextCriterium_def)
  obtain ro cs' where l: "rotate_loop C None (c' # cs) = (ro, cs')"
    by (cases "rotate_loop C None (c' # cs)")
  from assms m p l have
    "(case ro of Inl e \<Rightarrow> (Inl (Thrown e), st\<lparr>mCrit := cs'\<rparr>)
      | Inr None \<Rightarrow> (Inl UninitialisedRead, st\<lparr>mCrit := cs'\<rparr>)
      | Inr (Some rotated) \<Rightarrow> (Inr rotated, st\<lparr>mCrit := cs'\<rparr>)) = (Inr b, st')"
    by (simp add: setNextCriterium_def del: rotate_loop.simps)
  then have ro: "ro = Inr (Some b)" and st': "st' = st\<lparr>mCrit := cs'\<rparr>"
    by (auto split: sum.splits option.splits)
  from rotate_loop_states [OF l [unfolded ro]]
  have "cs' = map (\<lambda>x. snd (cr_rotateCriteria C x)) (c' # cs)"
    and "\<forall>x \<in> set (c' # cs). \<not> isl (fst (cr_rotateCriteria C x))"
    by blast+
  then show ?thesis using m p st'
    by (intro exI [of _ c] exI [of _ cs]) simp
qed

lemma setNextCriterium_synchronised:
  assumes "selection_contract C idx" and "synchronised idx st"
    and "setNextCriterium C r st = (Inr b, st')"
  shows "synchronised idx st'"
proof -
  from setNextCriterium_returns [OF assms(3)] obtain c cs where
    m: "mCrit st = c # cs" and p: "\<not> isl (fst (cr_pushResult C c r))"
    and ok: "\<forall>x \<in> set (snd (cr_pushResult C c r) # cs). \<not> isl (fst (cr_rotateCriteria C x))"
    and st': "mCrit st' = map (\<lambda>x. snd (cr_rotateCriteria C x)) (snd (cr_pushResult C c r) # cs)"
    by blast
  let ?xs = "snd (cr_pushResult C c r) # cs"
  have c1: "\<forall>c r. \<not> isl (fst (cr_pushResult C c r)) \<longrightarrow>
        idx (snd (cr_pushResult C c r)) = idx c"
    using assms(1) unfolding selection_contract_def by (rule conjunct1)
  have c2: "\<forall>c c'. idx c = idx c' \<and> \<not> isl (fst (cr_rotateCriteria C c))
          \<and> \<not> isl (fst (cr_rotateCriteria C c')) \<longrightarrow>
        idx (snd (cr_rotateCriteria C c)) = idx (snd (cr_rotateCriteria C c'))"
    using assms(1) unfolding selection_contract_def by (rule conjunct2)
  have keep: "idx (snd (cr_pushResult C c r)) = idx c"
    using c1 p by blast
  have before: "\<And>x. x \<in> set (c # cs) \<Longrightarrow> idx x = idx c"
    using assms(2) unfolding synchronised_def m by (meson list.set_intros(1))
  have same: "idx x = idx c" if "x \<in> set ?xs" for x
  proof (cases "x = snd (cr_pushResult C c r)")
    case True
    then show ?thesis using keep by simp
  next
    case False
    with that have "x \<in> set (c # cs)" by simp
    then show ?thesis by (rule before)
  qed
  have step: "\<And>x y. idx x = idx y \<Longrightarrow> \<not> isl (fst (cr_rotateCriteria C x)) \<Longrightarrow>
      \<not> isl (fst (cr_rotateCriteria C y)) \<Longrightarrow>
      idx (snd (cr_rotateCriteria C x)) = idx (snd (cr_rotateCriteria C y))"
    using c2 by blast
  have rot: "idx (snd (cr_rotateCriteria C x)) = idx (snd (cr_rotateCriteria C y))"
    if "x \<in> set ?xs" and "y \<in> set ?xs" for x y
  proof (rule step)
    show "idx x = idx y" using same [OF that(1)] same [OF that(2)] by simp
    show "\<not> isl (fst (cr_rotateCriteria C x))" using ok that(1) by (rule bspec)
    show "\<not> isl (fst (cr_rotateCriteria C y))" using ok that(2) by (rule bspec)
  qed
  show ?thesis
    unfolding synchronised_def st' set_map
  proof (intro ballI)
    fix a b
    assume "a \<in> (\<lambda>x. snd (cr_rotateCriteria C x)) ` set ?xs"
      and "b \<in> (\<lambda>x. snd (cr_rotateCriteria C x)) ` set ?xs"
    then obtain x y where "x \<in> set ?xs" "y \<in> set ?xs"
      "a = snd (cr_rotateCriteria C x)" "b = snd (cr_rotateCriteria C y)"
      by blast
    then show "idx a = idx b" using rot [of x y] by simp
  qed
qed

lemma setNextCriterium_all_synchronised:
  assumes "selection_contract C idx"
  shows "synchronised idx st \<Longrightarrow> setNextCriterium_all C rs st = Some st' \<Longrightarrow>
         synchronised idx st'"
proof (induction rs arbitrary: st)
  case Nil
  then show ?case by simp
next
  case (Cons r rs)
  from Cons.prems(2) obtain b st1 where
    step: "setNextCriterium C r st = (Inr b, st1)" and
    rest: "setNextCriterium_all C rs st1 = Some st'"
    by (cases "setNextCriterium C r st"; cases "fst (setNextCriterium C r st)") auto
  have "synchronised idx st1"
    using assms Cons.prems(1) step by (rule setNextCriterium_synchronised)
  then show ?case using rest by (rule Cons.IH)
qed

lemma setNextCriterium_all_prefix:
  "setNextCriterium_all C rs st = Some st' \<Longrightarrow>
   \<exists>st''. setNextCriterium_all C (take k rs) st = Some st''"
proof (induction rs arbitrary: st k)
  case Nil
  then show ?case by simp
next
  case (Cons r rs)
  from Cons.prems obtain b st1 where
    step: "setNextCriterium C r st = (Inr b, st1)" and
    rest: "setNextCriterium_all C rs st1 = Some st'"
    by (cases "setNextCriterium C r st"; cases "fst (setNextCriterium C r st)") auto
  show ?case
  proof (cases k)
    case 0
    then show ?thesis by simp
  next
    case (Suc k')
    from Cons.IH [OF rest, of k'] show ?thesis by (simp add: Suc step)
  qed
qed

text \<open>
  C4. Let the criteria keep their contract: a \<^verbatim>\<open>pushResult\<close> keeps the index of the
  active criterion, and \<^verbatim>\<open>rotateCriteria\<close> takes equal indices to equal indices. Then
  from an ensemble whose particles have the same active index, after each call of a
  sequence \<^verbatim>\<open>setNextCriterium(r_1)\<close>, ..., \<^verbatim>\<open>setNextCriterium(r_k)\<close> that returns, all
  particles have the same active index again.
\<close>

theorem rotation_stays_synchronised:
  assumes "selection_contract C idx" and "synchronised idx st"
    and "setNextCriterium_all C rs st = Some st'"
  shows "\<forall>k\<le>length rs. \<exists>st''. setNextCriterium_all C (take k rs) st = Some st'' \<and>
           synchronised idx st''"
proof (intro allI impI)
  fix k assume "k \<le> length rs"
  from setNextCriterium_all_prefix [OF assms(3), of k] obtain st'' where
    p: "setNextCriterium_all C (take k rs) st = Some st''" by blast
  have "synchronised idx st''"
    using assms(1,2) p by (rule setNextCriterium_all_synchronised)
  with p show "\<exists>st''. setNextCriterium_all C (take k rs) st = Some st'' \<and> synchronised idx st''"
    by blast
qed

theorem rotation_stays_synchronised_witness:
  "selection_contract stub_C sc_index \<and> synchronised sc_index stub_ensemble \<and>
   (\<exists>st. setNextCriterium_all stub_C (take 1 [[1], [2]]) stub_ensemble = Some st \<and>
      synchronised sc_index st) \<and>
   (\<exists>st. setNextCriterium_all stub_C (take 2 [[1], [2]]) stub_ensemble = Some st \<and>
      synchronised sc_index st)"
proof -
  have a: "selection_contract stub_C sc_index"
    by (simp add: selection_contract_def stub_C_def stub_rotate_def)
  have b: "synchronised sc_index stub_ensemble"
    by (simp add: synchronised_def stub_ensemble_def stub_crit_of_def)
  have c: "setNextCriterium_all stub_C [[1], [2]] stub_ensemble =
     Some (stub_ensemble\<lparr>mCrit :=
        [\<lparr>sc_value = 1 / 10, sc_index = 2, sc_results = [[1], [2]]\<rparr>,
         \<lparr>sc_value = 2 / 10, sc_index = 2, sc_results = []\<rparr>,
         \<lparr>sc_value = 3 / 10, sc_index = 2, sc_results = []\<rparr>]\<rparr>)"
    by (simp add: setNextCriterium_def stub_ensemble_def stub_C_def stub_rotate_def
        stub_crit_of_def)
  have len: "length [[1], [2::real]] = 2" by simp
  from rotation_stays_synchronised [OF a b c] have
    "\<forall>k\<le>2. \<exists>st. setNextCriterium_all stub_C (take k [[1], [2]]) stub_ensemble = Some st \<and>
           synchronised sc_index st"
    unfolding len .
  then have "(\<exists>st. setNextCriterium_all stub_C (take 1 [[1], [2]]) stub_ensemble = Some st \<and>
      synchronised sc_index st) \<and>
   (\<exists>st. setNextCriterium_all stub_C (take 2 [[1], [2]]) stub_ensemble = Some st \<and>
      synchronised sc_index st)"
    by (meson le_refl one_le_numeral)
  with a b show ?thesis by (intro conjI) blast+
qed

section \<open>Delegation to the first particle\<close>

text \<open>
  C3. \<^verbatim>\<open>criteriaRequiresComparison()\<close>, \<^verbatim>\<open>getBestCriteria(best)\<close> and
  \<^verbatim>\<open>getPrediction(query)\<close> depend on particle 0 only: on two ensembles with the same
  criterion and the same surrogate at index 0, whatever their other particles, each of
  the three returns the same (for \<^verbatim>\<open>getBestCriteria\<close>: the same label and the same
  vector written into \<^verbatim>\<open>best\<close>).
\<close>

theorem first_particle_delegation:
  assumes "mCrit st = c # cs" and "mCrit st' = c # cs'"
    and "mGP st = g # gs" and "mGP st' = g # gs'"
  shows "fst (criteriaRequiresComparison C st) = fst (criteriaRequiresComparison C st') \<and>
         fst (getBestCriteria C best st) = fst (getBestCriteria C best st') \<and>
         fst (getPrediction G query st) = fst (getPrediction G query st')"
  using assms
  by (simp add: criteriaRequiresComparison_def getBestCriteria_def getPrediction_def
      case_prod_beta)

theorem first_particle_delegation_witness:
  "mCrit stub_ensemble = stub_crit_of (1 / 10) # tl (mCrit stub_ensemble) \<and>
   mCrit other_ensemble = stub_crit_of (1 / 10) # tl (mCrit other_ensemble) \<and>
   mGP stub_ensemble = stub_gp_of False # tl (mGP stub_ensemble) \<and>
   mGP other_ensemble = stub_gp_of False # tl (mGP other_ensemble) \<and>
   tl (mCrit stub_ensemble) \<noteq> tl (mCrit other_ensemble) \<and>
   tl (mGP stub_ensemble) \<noteq> tl (mGP other_ensemble) \<and>
   fst (criteriaRequiresComparison stub_C stub_ensemble)
     = fst (criteriaRequiresComparison stub_C other_ensemble) \<and>
   fst (getBestCriteria stub_C [0] stub_ensemble)
     = fst (getBestCriteria stub_C [0] other_ensemble) \<and>
   fst (getPrediction stub_G [1 / 2] stub_ensemble)
     = fst (getPrediction stub_G [1 / 2] other_ensemble)"
proof -
  have a: "mCrit stub_ensemble = stub_crit_of (1 / 10) # tl (mCrit stub_ensemble)"
    by (simp add: stub_ensemble_def)
  have b: "mCrit other_ensemble = stub_crit_of (1 / 10) # tl (mCrit other_ensemble)"
    by (simp add: other_ensemble_def)
  have c: "mGP stub_ensemble = stub_gp_of False # tl (mGP stub_ensemble)"
    by (simp add: stub_ensemble_def)
  have d: "mGP other_ensemble = stub_gp_of False # tl (mGP other_ensemble)"
    by (simp add: other_ensemble_def)
  have e: "tl (mCrit stub_ensemble) \<noteq> tl (mCrit other_ensemble)"
    "tl (mGP stub_ensemble) \<noteq> tl (mGP other_ensemble)"
    by (simp_all add: stub_ensemble_def other_ensemble_def)
  show ?thesis
    using a b c d e first_particle_delegation [OF a b c d, of stub_C "[0]" stub_G "[1 / 2]"]
    by simp
qed

section \<open>Fitting the surrogates\<close>

lemma for_each_first_failure:
  assumes "i < length xs" and "fst (m (xs ! i)) = Inl e"
    and "\<forall>j<i. \<not> isl (fst (m (xs ! j)))"
  shows "fst (for_each m xs) = Inl e"
  using assms
proof (induction xs arbitrary: i)
  case Nil
  then show ?case by simp
next
  case (Cons x xs)
  show ?case
  proof (cases i)
    case 0
    with Cons.prems(2) obtain x' where "m x = (Inl e, x')"
      by (cases "m x") auto
    then show ?thesis by simp
  next
    case (Suc k)
    with Cons.prems(3) have "\<not> isl (fst (m x))" by auto
    then obtain u x' where mx: "m x = (Inr u, x')"
      by (cases "m x"; cases "fst (m x)") auto
    have "k < length xs" using Cons.prems(1) Suc by simp
    moreover have "fst (m (xs ! k)) = Inl e" using Cons.prems(2) Suc by simp
    moreover have "\<forall>j<k. \<not> isl (fst (m (xs ! j)))"
      using Cons.prems(3) Suc by auto
    ultimately have "fst (for_each m xs) = Inl e" by (rule Cons.IH)
    then show ?thesis by (simp add: mx case_prod_beta)
  qed
qed

lemma for_each_fails:
  assumes "i < length xs" and "isl (fst (m (xs ! i)))"
  shows "\<exists>j\<le>i. \<exists>e. fst (m (xs ! j)) = Inl e \<and> (\<forall>k<j. \<not> isl (fst (m (xs ! k))))
           \<and> fst (for_each m xs) = Inl e"
proof -
  define j where "j = (LEAST k. isl (fst (m (xs ! k))))"
  have jf: "isl (fst (m (xs ! j)))"
    unfolding j_def using assms(2) by (rule LeastI)
  have ji: "j \<le> i"
    unfolding j_def using assms(2) by (rule Least_le)
  have jm: "\<forall>k<j. \<not> isl (fst (m (xs ! k)))"
    unfolding j_def using not_less_Least by blast
  from jf obtain e where e: "fst (m (xs ! j)) = Inl e"
    by (cases "fst (m (xs ! j))") auto
  have "j < length xs" using ji assms(1) by simp
  then have "fst (for_each m xs) = Inl e"
    using e jm by (rule for_each_first_failure)
  with e jm ji show ?thesis by blast
qed

lemma for_each_length: "length (snd (for_each m xs)) = length xs"
  by (induction xs) (auto split: prod.splits sum.splits)

text \<open>
  C5, as the header has it. If the fit (or the update) of the surrogate of some particle
  throws, \<^verbatim>\<open>fitSurrogateModel()\<close> (or \<^verbatim>\<open>updateSurrogateModel()\<close>) does not return: the
  exception of the first particle that throws, in index order, leaves the call as it
  was thrown. Nothing is added to it, the index of the particle neither. The surrogate
  collection keeps its length: no particle is dropped.
\<close>

theorem surrogate_failure_passes_through:
  assumes "i < length (mGP st)"
  shows "(isl (fst (np_fitSurrogateModel G (mGP st ! i))) \<longrightarrow>
           (\<exists>j\<le>i. \<exists>e. fst (np_fitSurrogateModel G (mGP st ! j)) = Inl e
               \<and> (\<forall>k<j. \<not> isl (fst (np_fitSurrogateModel G (mGP st ! k))))
               \<and> fst (fitSurrogateModel G st) = Inl (Thrown e))
           \<and> length (mGP (snd (fitSurrogateModel G st))) = length (mGP st))
       \<and> (isl (fst (np_updateSurrogateModel G (mGP st ! i))) \<longrightarrow>
           (\<exists>j\<le>i. \<exists>e. fst (np_updateSurrogateModel G (mGP st ! j)) = Inl e
               \<and> (\<forall>k<j. \<not> isl (fst (np_updateSurrogateModel G (mGP st ! k))))
               \<and> fst (updateSurrogateModel G st) = Inl (Thrown e))
           \<and> length (mGP (snd (updateSurrogateModel G st))) = length (mGP st))"
proof (intro conjI impI)
  assume "isl (fst (np_fitSurrogateModel G (mGP st ! i)))"
  from for_each_fails [of i "mGP st" "np_fitSurrogateModel G", OF assms this]
  obtain j e where j: "j \<le> i" "fst (np_fitSurrogateModel G (mGP st ! j)) = Inl e"
    "\<forall>k<j. \<not> isl (fst (np_fitSurrogateModel G (mGP st ! k)))"
    "fst (for_each (np_fitSurrogateModel G) (mGP st)) = Inl e"
    by blast
  from j(4) have "fst (fitSurrogateModel G st) = Inl (Thrown e)"
    by (simp add: fitSurrogateModel_def case_prod_beta lift_failure_def)
  with j(1,2,3)
  show "\<exists>j\<le>i. \<exists>e. fst (np_fitSurrogateModel G (mGP st ! j)) = Inl e
               \<and> (\<forall>k<j. \<not> isl (fst (np_fitSurrogateModel G (mGP st ! k))))
               \<and> fst (fitSurrogateModel G st) = Inl (Thrown e)"
    by (intro exI [of _ j] exI [of _ e] conjI)
next
  assume "isl (fst (np_updateSurrogateModel G (mGP st ! i)))"
  from for_each_fails [of i "mGP st" "np_updateSurrogateModel G", OF assms this]
  obtain j e where j: "j \<le> i" "fst (np_updateSurrogateModel G (mGP st ! j)) = Inl e"
    "\<forall>k<j. \<not> isl (fst (np_updateSurrogateModel G (mGP st ! k)))"
    "fst (for_each (np_updateSurrogateModel G) (mGP st)) = Inl e"
    by blast
  from j(4) have "fst (updateSurrogateModel G st) = Inl (Thrown e)"
    by (simp add: updateSurrogateModel_def case_prod_beta lift_failure_def)
  with j(1,2,3)
  show "\<exists>j\<le>i. \<exists>e. fst (np_updateSurrogateModel G (mGP st ! j)) = Inl e
               \<and> (\<forall>k<j. \<not> isl (fst (np_updateSurrogateModel G (mGP st ! k))))
               \<and> fst (updateSurrogateModel G st) = Inl (Thrown e)"
    by (intro exI [of _ j] exI [of _ e] conjI)
next
  show "length (mGP (snd (fitSurrogateModel G st))) = length (mGP st)"
    by (simp add: fitSurrogateModel_def case_prod_beta for_each_length)
next
  show "length (mGP (snd (updateSurrogateModel G st))) = length (mGP st)"
    by (simp add: updateSurrogateModel_def case_prod_beta for_each_length)
qed

theorem surrogate_failure_passes_through_witness:
  "fst (fitSurrogateModel stub_G singular_last) = Inl (Thrown ''Cholesky decomposition error'') \<and>
   fst (updateSurrogateModel stub_G singular_last) = Inl (Thrown ''Cholesky decomposition error'') \<and>
   length (mGP (snd (fitSurrogateModel stub_G singular_last))) = 3 \<and>
   length (mGP (snd (updateSurrogateModel stub_G singular_last))) = 3"
proof -
  have i: "2 < length (mGP singular_last)"
    by (simp add: singular_last_def stub_ensemble_def)
  have f: "isl (fst (np_fitSurrogateModel stub_G (mGP singular_last ! 2)))"
    "isl (fst (np_updateSurrogateModel stub_G (mGP singular_last ! 2)))"
    by (simp_all add: singular_last_def stub_ensemble_def stub_G_def stub_fit_def stub_gp_of_def)
  have msg: "\<And>g e. fst (stub_fit g) = Inl e \<Longrightarrow> e = ''Cholesky decomposition error''"
    by (simp add: stub_fit_def split: if_splits)
  have np: "np_fitSurrogateModel stub_G = stub_fit" "np_updateSurrogateModel stub_G = stub_fit"
    by (simp_all add: stub_G_def)
  have len: "length (mGP singular_last) = 3"
    by (simp add: singular_last_def stub_ensemble_def)
  from surrogate_failure_passes_through [OF i, of stub_G] f
  show ?thesis
    unfolding np len using msg by blast
qed

text \<open>
  C5, as the claim has it, fails: the failure of the call does not name the particle.
  With the singular surrogate at index 0 and with it at index 2, both calls end in the
  same exception.
\<close>

theorem surrogate_failure_index_counterexample:
  "fst (fitSurrogateModel stub_G singular_first)
     = Inl (Thrown ''Cholesky decomposition error'') \<and>
   fst (fitSurrogateModel stub_G singular_last)
     = Inl (Thrown ''Cholesky decomposition error'') \<and>
   fst (updateSurrogateModel stub_G singular_first)
     = Inl (Thrown ''Cholesky decomposition error'') \<and>
   fst (updateSurrogateModel stub_G singular_last)
     = Inl (Thrown ''Cholesky decomposition error'') \<and>
   isl (fst (np_fitSurrogateModel stub_G (mGP singular_first ! 0))) \<and>
   \<not> isl (fst (np_fitSurrogateModel stub_G (mGP singular_last ! 0))) \<and>
   \<not> isl (fst (np_fitSurrogateModel stub_G (mGP singular_last ! 1))) \<and>
   isl (fst (np_fitSurrogateModel stub_G (mGP singular_last ! 2)))"
  by (simp add: singular_first_def singular_last_def stub_ensemble_def stub_G_def stub_fit_def
      stub_gp_of_def fitSurrogateModel_def updateSurrogateModel_def lift_failure_def)

text \<open>
  C10. \<^verbatim>\<open>fitSurrogateModel()\<close> and \<^verbatim>\<open>updateSurrogateModel()\<close> write the surrogate
  collection only: after either call, however it ends, the state of every criterion and
  \<^verbatim>\<open>nParticles\<close> are what they were before it.
\<close>

theorem surrogate_fit_frame:
  "mCrit (snd (fitSurrogateModel G st)) = mCrit st \<and>
   nParticles (snd (fitSurrogateModel G st)) = nParticles st \<and>
   mCrit (snd (updateSurrogateModel G st)) = mCrit st \<and>
   nParticles (snd (updateSurrogateModel G st)) = nParticles st"
  by (simp add: fitSurrogateModel_def updateSurrogateModel_def split: prod.splits)

section \<open>The number of particles\<close>

lemma evaluate_loop_length: "length (snd (evaluate_loop C q a cs)) = length cs"
  by (induction cs arbitrary: a) (simp_all add: case_prod_beta split: sum.splits)

lemma rotate_loop_length: "length (snd (rotate_loop C ro cs)) = length cs"
  by (induction cs arbitrary: ro) (simp_all add: case_prod_beta split: sum.splits)

lemma header_calls_keep_counts:
  "particle_counts (snd (fitSurrogateModel G st)) = particle_counts st"
  "particle_counts (snd (updateSurrogateModel G st)) = particle_counts st"
  "particle_counts (snd (evaluateCriteria C q st)) = particle_counts st"
  "particle_counts (snd (updateCriteria C q st)) = particle_counts st"
  "particle_counts (snd (criteriaRequiresComparison C st)) = particle_counts st"
  "particle_counts (snd (setFirstCriterium C st)) = particle_counts st"
  "particle_counts (snd (getBestCriteria C q st)) = particle_counts st"
  "particle_counts (snd (getPrediction G q st)) = particle_counts st"
proof -
  show "particle_counts (snd (fitSurrogateModel G st)) = particle_counts st"
    by (simp add: particle_counts_def fitSurrogateModel_def case_prod_beta for_each_length)
  show "particle_counts (snd (updateSurrogateModel G st)) = particle_counts st"
    by (simp add: particle_counts_def updateSurrogateModel_def case_prod_beta for_each_length)
  show "particle_counts (snd (evaluateCriteria C q st)) = particle_counts st"
    using evaluate_loop_length [of C q "Finite False 0" "mCrit st"]
    by (cases "evaluate_loop C q (Finite False 0) (mCrit st)";
        cases "fst (evaluate_loop C q (Finite False 0) (mCrit st))")
       (simp_all add: particle_counts_def evaluateCriteria_def)
  show "particle_counts (snd (updateCriteria C q st)) = particle_counts st"
    by (simp add: particle_counts_def updateCriteria_def case_prod_beta for_each_length)
  show "particle_counts (snd (criteriaRequiresComparison C st)) = particle_counts st"
    by (cases "mCrit st")
       (simp_all add: particle_counts_def criteriaRequiresComparison_def case_prod_beta)
  show "particle_counts (snd (setFirstCriterium C st)) = particle_counts st"
    by (simp add: particle_counts_def setFirstCriterium_def case_prod_beta for_each_length)
  show "particle_counts (snd (getBestCriteria C q st)) = particle_counts st"
    by (cases "mCrit st")
       (simp_all add: particle_counts_def getBestCriteria_def case_prod_beta)
  show "particle_counts (snd (getPrediction G q st)) = particle_counts st"
    by (cases "mGP st")
       (simp_all add: particle_counts_def getPrediction_def case_prod_beta)
qed

lemma setNextCriterium_keeps_counts:
  "particle_counts (snd (setNextCriterium C r st)) = particle_counts st"
proof (cases "mCrit st")
  case Nil
  then show ?thesis by (simp add: setNextCriterium_def)
next
  case (Cons c cs)
  obtain p c' where p: "cr_pushResult C c r = (p, c')" by (cases "cr_pushResult C c r")
  show ?thesis
  proof (cases p)
    case (Inl e)
    then show ?thesis using Cons p by (simp add: setNextCriterium_def particle_counts_def)
  next
    case (Inr u)
    obtain ro cs' where l: "rotate_loop C None (c' # cs) = (ro, cs')"
      by (cases "rotate_loop C None (c' # cs)")
    have "length cs' = length (c' # cs)"
      using rotate_loop_length [of C None "c' # cs"] l by simp
    then show ?thesis using Cons p Inr l
      by (simp add: setNextCriterium_def particle_counts_def del: rotate_loop.simps
          split: sum.splits option.splits)
  qed
qed

lemma updateHyperParameters_counts:
  assumes "particle_counts st = (n, n, n)"
  shows "particle_counts (snd (updateHyperParameters F dims params st)) = (n, n, n)"
  using assms
  by (auto simp: particle_counts_def updateHyperParameters_def Let_def
      split: prod.splits option.splits)

lemma state_after_counts:
  assumes "particle_counts st = (n, n, n)"
  shows "particle_counts (state_after F G C dims params c st) = (n, n, n)"
  using assms
  by (cases c)
     (simp_all add: header_calls_keep_counts setNextCriterium_keeps_counts
       updateHyperParameters_counts)

lemma run_calls_counts:
  "particle_counts st = (n, n, n) \<Longrightarrow>
   particle_counts (run_calls F G C dims params calls st) = (n, n, n)"
  by (induction calls arbitrary: st) (simp_all add: state_after_counts)

lemma MCMCModel_new_counts:
  assumes "MCMCModel_new F dims params eng = Inr st0"
  shows "particle_counts st0 = (n_particles F params, n_particles F params, n_particles F params)"
    and "mCrit st0 = map (\<lambda>g. create_criterion F g params) (mGP st0)"
  using assms
  by (auto simp: MCMCModel_new_def particle_counts_def Let_def split: if_splits)

lemma updateHyperParameters_binds:
  assumes "fst (updateHyperParameters F dims params st) = Inr ()"
  shows "mCrit (snd (updateHyperParameters F dims params st)) =
           map (\<lambda>g. create_criterion F g params) (mGP (snd (updateHyperParameters F dims params st)))"
  using assms
  by (auto simp: updateHyperParameters_def Let_def split: if_splits prod.splits option.splits)

text \<open>
  C6. On an ensemble that the constructor has built, after any sequence of calls of the
  public member functions, \<^verbatim>\<open>updateHyperParameters()\<close> among them and whatever the
  outcome of each call, \<^verbatim>\<open>nParticles\<close> is the count fixed at construction and both
  collections have exactly that length. At construction, and after every
  \<^verbatim>\<open>updateHyperParameters()\<close> that succeeds, the criterion at an index is the one
  created for the surrogate at that index.
\<close>

theorem particle_count_invariant:
  assumes "MCMCModel_new F dims params eng = Inr st0"
    and "st = run_calls F G C dims params calls st0"
  shows "nParticles st = n_particles F params \<and>
         length (mGP st) = nParticles st \<and> length (mCrit st) = nParticles st \<and>
         mCrit st0 = map (\<lambda>g. create_criterion F g params) (mGP st0) \<and>
         (fst (updateHyperParameters F dims params st) = Inr () \<longrightarrow>
            mCrit (snd (updateHyperParameters F dims params st)) =
              map (\<lambda>g. create_criterion F g params)
                  (mGP (snd (updateHyperParameters F dims params st))))"
proof -
  have "particle_counts st = (n_particles F params, n_particles F params, n_particles F params)"
    unfolding assms(2) using MCMCModel_new_counts(1) [OF assms(1)] by (rule run_calls_counts)
  then have "nParticles st = n_particles F params \<and>
         length (mGP st) = nParticles st \<and> length (mCrit st) = nParticles st"
    by (simp add: particle_counts_def)
  then show ?thesis
    using MCMCModel_new_counts(2) [OF assms(1)] updateHyperParameters_binds [of F dims params st]
    by simp
qed

theorem particle_count_invariant_witness:
  "MCMCModel_new stub_F 1 3 0 = Inr stub_fresh \<and>
   nParticles (run_calls stub_F stub_G stub_C 1 3
      [UpdateHyperParameters, FitSurrogateModel, SetFirstCriterium, EvaluateCriteria [1 / 2],
       SetNextCriterium [1]] stub_fresh) = 3 \<and>
   length (mGP (run_calls stub_F stub_G stub_C 1 3
      [UpdateHyperParameters, FitSurrogateModel, SetFirstCriterium, EvaluateCriteria [1 / 2],
       SetNextCriterium [1]] stub_fresh)) = 3 \<and>
   length (mCrit (run_calls stub_F stub_G stub_C 1 3
      [UpdateHyperParameters, FitSurrogateModel, SetFirstCriterium, EvaluateCriteria [1 / 2],
       SetNextCriterium [1]] stub_fresh)) = 3"
proof -
  have a: "MCMCModel_new stub_F 1 3 0 = Inr stub_fresh"
    by (simp add: MCMCModel_new_def stub_F_def stub_fresh_def upt_rec numeral_3_eq_3)
  have n: "n_particles stub_F 3 = 3" by (simp add: stub_F_def)
  show ?thesis
    using a particle_count_invariant [OF a refl, of stub_G stub_C
      "[UpdateHyperParameters, FitSurrogateModel, SetFirstCriterium, EvaluateCriteria [1 / 2],
        SetNextCriterium [1]]"]
    by (simp add: n)
qed

section \<open>Configuration errors\<close>

text \<open>
  C7. \<^verbatim>\<open>updateHyperParameters()\<close> fails with \<open>ConfigurationError\<close> whenever
  \<^verbatim>\<open>nParticles\<close> is 0 or the dimension is invalid: it does not return, and the ensemble
  is as before.
\<close>

theorem updateHyperParameters_configuration_error:
  assumes "nParticles st = 0 \<or> \<not> valid_dimension F dims"
  shows "updateHyperParameters F dims params st = (Inl ConfigurationError, st)"
  using assms by (auto simp: updateHyperParameters_def)

theorem updateHyperParameters_configuration_error_witness:
  "nParticles empty_ensemble = 0 \<and>
   updateHyperParameters stub_F 1 3 empty_ensemble = (Inl ConfigurationError, empty_ensemble) \<and>
   \<not> valid_dimension stub_F 0 \<and>
   updateHyperParameters stub_F 0 3 stub_ensemble = (Inl ConfigurationError, stub_ensemble)"
proof -
  have a: "nParticles empty_ensemble = 0" by (simp add: empty_ensemble_def)
  have b: "\<not> valid_dimension stub_F 0" by (simp add: stub_F_def)
  show ?thesis
    using a b
      updateHyperParameters_configuration_error [of empty_ensemble stub_F 1 3, OF disjI1, OF a]
      updateHyperParameters_configuration_error [of stub_ensemble stub_F 0 3, OF disjI2, OF b]
    by simp
qed

end
